theory Spec2Isabelle
  imports Complex_Main "HOL-Library.Sublist"
begin

section \<open>Scoring and recommendation rules of the beach safety analyzer\<close>

text \<open>
  The pure rules of \<^verbatim>\<open>app.py\<close> are embedded as HOL functions. Numbers that
  Python holds as \<^verbatim>\<open>float\<close> (temperature, wind speed, UV index, the rating) are
  modelled as \<^typ>\<open>real\<close>: the program only compares them with integer constants and
  subtracts small integers from \<^verbatim>\<open>8.0\<close>, and both are exact on finite binary
  floating-point values. Text is modelled as \<^typ>\<open>string\<close>, the UTF-8 bytes of the
  Python string.
\<close>

subsection \<open>Strings\<close>

text \<open>
  Python's \<^verbatim>\<open>needle in haystack\<close> on strings: the needle is tried as a prefix at
  every position of the haystack, from left to right.
\<close>

fun py_in :: "string \<Rightarrow> string \<Rightarrow> bool" where
  "py_in needle [] = (needle = [])"
| "py_in needle (c # cs) = (prefix needle (c # cs) \<or> py_in needle cs)"

text \<open>
  \<^verbatim>\<open>str.lower()\<close> on one ASCII character: the letters \<^verbatim>\<open>A\<close> to \<^verbatim>\<open>Z\<close> become
  \<^verbatim>\<open>a\<close> to \<^verbatim>\<open>z\<close>, every other one is kept.
\<close>

definition lower_char :: "char \<Rightarrow> char" where
  "lower_char c =
     (let n = (of_char c :: nat)
      in if 65 \<le> n \<and> n \<le> 90 then char_of (n + 32) else c)"

text \<open>
  Two characters outside ASCII have a lower case that holds an ASCII letter: the capital
  I with dot above, U+0130, becomes \<^verbatim>\<open>i\<close> followed by the combining dot U+0307, and
  the Kelvin sign, U+212A, becomes \<^verbatim>\<open>k\<close>. These are their UTF-8 bytes.
\<close>

definition capital_I_dot :: string where
  "capital_I_dot = [CHR 0xC4, CHR 0xB0]"

definition kelvin_sign :: string where
  "kelvin_sign = [CHR 0xE2, CHR 0x84, CHR 0xAA]"

text \<open>
  \<^verbatim>\<open>str.lower()\<close> on the UTF-8 bytes of a text, from left to right. The two
  characters above are replaced by their lower case and ASCII letters are folded. Every
  other character outside ASCII has a lower case outside ASCII as well, so before and
  after lower-casing its bytes are all at least \<^verbatim>\<open>0x80\<close> and equal no byte of an
  ASCII needle; these bytes are kept as they are. The program uses the lower-cased text
  only to look for an ASCII needle in it, and for that it is Python's.
\<close>

fun lower :: "string \<Rightarrow> string" where
  "lower [] = []"
| "lower (c # cs) =
     (if prefix capital_I_dot (c # cs)
        then CHR ''i'' # CHR 0xCC # CHR 0x87 # lower (drop 1 cs)
      else if prefix kelvin_sign (c # cs)
        then CHR ''k'' # lower (drop 2 cs)
      else lower_char c # lower cs)"

subsection \<open>UV risk band\<close>

definition uv_risk_level :: "real \<Rightarrow> string" where
  "uv_risk_level uv_index =
     (if uv_index \<le> 2 then ''Low''
      else if uv_index \<le> 5 then ''Moderate''
      else if uv_index \<le> 7 then ''High''
      else if uv_index \<le> 10 then ''Very High''
      else ''Extreme'')"

subsection \<open>Weather codes\<close>

text \<open>The dictionary literal of \<^verbatim>\<open>translate_weather_code\<close>, in its written order.\<close>

definition weather_codes :: "(int \<times> string) list" where
  "weather_codes =
     [(0, ''Clear sky''), (1, ''Mainly clear''), (2, ''Partly cloudy''),
      (3, ''Overcast''), (45, ''Fog''), (51, ''Light drizzle''),
      (61, ''Light rain''), (80, ''Rain showers''), (95, ''Thunderstorm'')]"

text \<open>\<^verbatim>\<open>d.get(key, default)\<close> on a dictionary.\<close>

definition dict_get :: "('k \<rightharpoonup> 'v) \<Rightarrow> 'k \<Rightarrow> 'v \<Rightarrow> 'v" where
  "dict_get d k dflt = (case d k of None \<Rightarrow> dflt | Some v \<Rightarrow> v)"

definition translate_weather_code :: "int \<Rightarrow> string" where
  "translate_weather_code code =
     dict_get (map_of weather_codes) code ''Unknown weather conditions''"

subsection \<open>Weather observation\<close>

text \<open>
  The dictionary returned by \<^verbatim>\<open>get_weather\<close>; the nested \<^verbatim>\<open>forecast\<close>
  dictionary is flattened into its two entries.
\<close>

record weather =
  temp :: real
  humidity :: real
  wind :: real
  uv_index :: real
  uv_max :: real
  conditions :: string
  forecast_max :: real
  forecast_min :: real

subsection \<open>General safety rating\<close>

text \<open>
  \<^verbatim>\<open>round(x, 1)\<close>: the nearest multiple of one tenth, a tie going to the even
  tenth. (On binary floating point Python returns the float nearest to that decimal;
  the two agree on integer-valued arguments, and the rating is integer-valued.)
\<close>

definition py_round1 :: "real \<Rightarrow> real" where
  "py_round1 x =
     (let y = x * 10; f = \<lfloor>y\<rfloor>; d = y - of_int f
      in of_int (if d < 1 / 2 then f
                 else if 1 / 2 < d then f + 1
                 else if even f then f else f + 1) / 10)"

text \<open>The value of the local variable \<^verbatim>\<open>rating\<close> when the \<^verbatim>\<open>return\<close> is reached.\<close>

definition rating_before_bounds :: "weather \<Rightarrow> real" where
  "rating_before_bounds w =
     (let rating = 8;
          rating = (if py_in ''Thunderstorm'' (conditions w) then rating - 4
                    else if py_in ''Rain'' (conditions w) then rating - 2
                    else if py_in ''Fog'' (conditions w) then rating - 1
                    else rating);
          rating = (if temp w > 35 then rating - 2
                    else if temp w < 10 then rating - 1
                    else rating);
          rating = (if wind w > 30 then rating - 3
                    else if wind w > 20 then rating - 1
                    else rating);
          rating = (if uv_index w > 8 then rating - 1 else rating)
      in rating)"

definition get_safety_rating :: "weather \<Rightarrow> real" where
  "get_safety_rating w = max 0 (min 10 (py_round1 (rating_before_bounds w)))"

text \<open>
  The label that \<^verbatim>\<open>display_location_report\<close> (and \<^verbatim>\<open>display_beach_report\<close>)
  shows beside the rating: a chain of conditional expressions.
\<close>

definition safety_label :: "real \<Rightarrow> string" where
  "safety_label safety_rating =
     (if safety_rating \<ge> 8 then ''Very Safe''
      else if safety_rating \<ge> 6 then ''Safe''
      else if safety_rating \<ge> 4 then ''Caution Advised''
      else ''Not Recommended'')"

subsection \<open>Beach packing list\<close>

text \<open>
  The item literals. Each starts with a pictograph, written here as its UTF-8 bytes:
  U+1F9F4, U+1FA71, U+1F3D6 U+FE0F, U+1F576 U+FE0F, U+1F4A7 for the base items and
  U+1F9E2, U+1F32C U+FE0F, U+1F9E5, U+2614 for the conditional ones.
\<close>

definition item_sunscreen :: string where
  "item_sunscreen = [CHR 0xF0, CHR 0x9F, CHR 0xA7, CHR 0xB4] @ '' SPF 50+ Sunscreen''"

definition item_swimwear :: string where
  "item_swimwear = [CHR 0xF0, CHR 0x9F, CHR 0xA9, CHR 0xB1] @ '' Swimwear''"

definition item_towel :: string where
  "item_towel =
     [CHR 0xF0, CHR 0x9F, CHR 0x8F, CHR 0x96, CHR 0xEF, CHR 0xB8, CHR 0x8F] @ '' Beach towel''"

definition item_sunglasses :: string where
  "item_sunglasses =
     [CHR 0xF0, CHR 0x9F, CHR 0x95, CHR 0xB6, CHR 0xEF, CHR 0xB8, CHR 0x8F]
       @ '' UV-protection sunglasses''"

definition item_bottle :: string where
  "item_bottle = [CHR 0xF0, CHR 0x9F, CHR 0x92, CHR 0xA7] @ '' Reusable water bottle''"

definition item_hat :: string where
  "item_hat = [CHR 0xF0, CHR 0x9F, CHR 0xA7, CHR 0xA2] @ '' UV-protective hat/clothing''"

definition item_fan :: string where
  "item_fan =
     [CHR 0xF0, CHR 0x9F, CHR 0x8C, CHR 0xAC, CHR 0xEF, CHR 0xB8, CHR 0x8F]
       @ '' Portable fan/misting bottle''"

definition item_windbreaker :: string where
  "item_windbreaker = [CHR 0xF0, CHR 0x9F, CHR 0xA7, CHR 0xA5] @ '' Light windbreaker''"

definition item_cover :: string where
  "item_cover = [CHR 0xE2, CHR 0x98, CHR 0x94] @ '' Waterproof bag/cover''"

text \<open>\<^verbatim>\<open>items.append(x)\<close> is \<open>items @ [x]\<close>.\<close>

definition generate_beach_packing_list :: "weather \<Rightarrow> real \<Rightarrow> string list" where
  "generate_beach_packing_list w uv =
     (let items = [item_sunscreen, item_swimwear, item_towel, item_sunglasses, item_bottle];
          items = (if uv > 8 then items @ [item_hat] else items);
          items = (if temp w > 30 then items @ [item_fan] else items);
          items = (if wind w > 15 then items @ [item_windbreaker] else items);
          items = (if py_in ''rain'' (lower (conditions w)) then items @ [item_cover] else items)
      in items)"

subsection \<open>Beach safety score\<close>

text \<open>\<^verbatim>\<open>any(p(h) for h in hazards)\<close> is \<^const>\<open>list_ex\<close>.\<close>

text \<open>The value of the local variable \<^verbatim>\<open>score\<close> when the \<^verbatim>\<open>return\<close> is reached.\<close>

definition score_before_bounds :: "real \<Rightarrow> string list \<Rightarrow> bool \<Rightarrow> int" where
  "score_before_bounds uv hazards has_lifeguard =
     (let score = 8;
          score = (if uv > 8 then score - 2
                   else if uv > 5 then score - 1
                   else score);
          score = (if list_ex (\<lambda>h. py_in ''tsunami'' (lower h)) hazards then score - 3
                   else if list_ex (\<lambda>h. py_in ''cyclone'' (lower h)) hazards then score - 2
                   else score);
          score = (if has_lifeguard then score + 1 else score)
      in score)"

definition get_beach_safety_score :: "real \<Rightarrow> string list \<Rightarrow> bool \<Rightarrow> int" where
  "get_beach_safety_score uv hazards has_lifeguard =
     max 1 (min 10 (score_before_bounds uv hazards has_lifeguard))"

subsection \<open>Flight distance\<close>

text \<open>
  \<^verbatim>\<open>get_coordinates\<close> asks a geocoding service and \<^verbatim>\<open>great_circle\<close> belongs to a
  library, so both are parameters: the first returns the triple of latitude, longitude
  and address, each possibly \<^verbatim>\<open>None\<close>; the second returns kilometres, or fails on
  coordinates it rejects.
\<close>

datatype geo_error = ValueError

definition estimate_flight_distance ::
  "(string \<Rightarrow> real option \<times> real option \<times> string option) \<Rightarrow>
   (real \<times> real \<Rightarrow> real \<times> real \<Rightarrow> geo_error + real) \<Rightarrow>
   string \<Rightarrow> string \<Rightarrow> geo_error + real" where
  "estimate_flight_distance get_coordinates great_circle_km origin destination =
     (case get_coordinates origin of (orig_lat, orig_lng, _) \<Rightarrow>
      case get_coordinates destination of (dest_lat, dest_lng, _) \<Rightarrow>
        if None \<in> set [orig_lat, orig_lng, dest_lat, dest_lng] then Inr 0
        else great_circle_km (the orig_lat, the orig_lng) (the dest_lat, the dest_lng))"

subsection \<open>Tide extremes\<close>

text \<open>
  One entry of the service's \<^verbatim>\<open>data\<close> list. Its \<^verbatim>\<open>time\<close> is either a text that
  parses to a timestamp with an offset (held as microseconds since the epoch, in UTC),
  or something on which parsing or the comparison with the aware current time raises.
  \<^verbatim>\<open>type\<close> and \<^verbatim>\<open>height\<close> may be missing.
\<close>

datatype time_entry = Aware int | Unusable

record 'h tide =
  tide_time :: time_entry
  tide_type :: "string option"
  tide_height :: "'h option"

datatype 'h height = Height 'h | NA

record 'h next_tide =
  nt_time :: int
  nt_height :: "'h height"

datatype tide_error = No_tide_data | Raised

text \<open>\<^verbatim>\<open>tide.get("height", "N/A")\<close>\<close>

definition height_of :: "'h tide \<Rightarrow> 'h height" where
  "height_of tide = (case tide_height tide of None \<Rightarrow> NA | Some h \<Rightarrow> Height h)"

text \<open>
  The \<^verbatim>\<open>for\<close> loop over the entries, from the state (\<^verbatim>\<open>next_high\<close>,
  \<^verbatim>\<open>next_low\<close>). Any exception leaves the loop and the function.
\<close>

fun tide_loop ::
  "int \<Rightarrow> 'h tide list \<Rightarrow> 'h next_tide option \<times> 'h next_tide option \<Rightarrow>
   tide_error + ('h next_tide option \<times> 'h next_tide option)" where
  "tide_loop now_utc [] st = Inr st"
| "tide_loop now_utc (tide # rest) (next_high, next_low) =
     (case tide_time tide of
        Unusable \<Rightarrow> Inl Raised
      | Aware t \<Rightarrow>
          if t < now_utc then tide_loop now_utc rest (next_high, next_low)
          else (case tide_type tide of
                  None \<Rightarrow> Inl Raised
                | Some ty \<Rightarrow>
                    if ty = ''high'' then
                      (if (case next_high of None \<Rightarrow> True | Some h \<Rightarrow> t < nt_time h)
                       then tide_loop now_utc rest
                              (Some \<lparr>nt_time = t, nt_height = height_of tide\<rparr>, next_low)
                       else tide_loop now_utc rest (next_high, next_low))
                    else if ty = ''low'' then
                      (if (case next_low of None \<Rightarrow> True | Some l \<Rightarrow> t < nt_time l)
                       then tide_loop now_utc rest
                              (next_high, Some \<lparr>nt_time = t, nt_height = height_of tide\<rparr>)
                       else tide_loop now_utc rest (next_high, next_low))
                    else tide_loop now_utc rest (next_high, next_low)))"

text \<open>
  \<^verbatim>\<open>get_tide_data\<close> from the decoded response on: the current time and the
  \<^verbatim>\<open>data\<close> list are given.
\<close>

definition get_tide_data ::
  "int \<Rightarrow> 'h tide list \<Rightarrow> tide_error + ('h next_tide option \<times> 'h next_tide option)" where
  "get_tide_data now_utc data =
     (if data = [] then Inl No_tide_data else tide_loop now_utc data (None, None))"

subsection \<open>The rules as the specification words them\<close>

text \<open>
  The specification gives each rule as a table of deductions per category. These
  definitions follow its words; ``contains'' is \<^const>\<open>sublist\<close>, that is,
  \<open>sublist p s \<longleftrightarrow> (\<exists>before after. s = before @ p @ after)\<close>.
\<close>

definition spec_condition_deduction :: "string \<Rightarrow> real" where
  "spec_condition_deduction txt =
     (if sublist ''Thunderstorm'' txt then 4
      else if sublist ''Rain'' txt then 2
      else if sublist ''Fog'' txt then 1
      else 0)"

definition spec_temperature_deduction :: "real \<Rightarrow> real" where
  "spec_temperature_deduction t = (if t > 35 then 2 else if t < 10 then 1 else 0)"

definition spec_wind_deduction :: "real \<Rightarrow> real" where
  "spec_wind_deduction v = (if v > 30 then 3 else if v > 20 then 1 else 0)"

definition spec_uv_deduction :: "real \<Rightarrow> real" where
  "spec_uv_deduction uv = (if uv > 8 then 1 else 0)"

definition spec_beach_uv_deduction :: "real \<Rightarrow> int" where
  "spec_beach_uv_deduction uv = (if uv > 8 then 2 else if uv > 5 then 1 else 0)"

text \<open>
  ``Contains, case-insensitively'', said of the text itself: some run of consecutive
  characters of the text spells the needle, each needle letter standing for itself or
  for its capital.
\<close>

definition same_letter :: "char \<Rightarrow> char \<Rightarrow> bool" where
  "same_letter n c \<longleftrightarrow>
     c = n \<or>
     (97 \<le> (of_char n :: nat) \<and> (of_char n :: nat) \<le> 122 \<and> of_char c + 32 = (of_char n :: nat))"

definition contains_ignoring_case :: "string \<Rightarrow> string \<Rightarrow> bool" where
  "contains_ignoring_case needle body \<longleftrightarrow>
     (\<exists>seg. sublist seg body \<and> list_all2 same_letter needle seg)"

text \<open>
  For \<^verbatim>\<open>tsunami\<close>, whose last letter is \<^verbatim>\<open>i\<close>, the capital I with dot above is a
  further capital of that last letter.
\<close>

definition mentions_tsunami :: "string \<Rightarrow> bool" where
  "mentions_tsunami h \<longleftrightarrow>
     contains_ignoring_case ''tsunami'' h \<or>
     (\<exists>stem. sublist (stem @ capital_I_dot) h \<and> list_all2 same_letter ''tsunam'' stem)"

definition spec_beach_hazard_deduction :: "string list \<Rightarrow> int" where
  "spec_beach_hazard_deduction hazards =
     (if \<exists>h \<in> set hazards. mentions_tsunami h then 3
      else if \<exists>h \<in> set hazards. contains_ignoring_case ''cyclone'' h then 2
      else 0)"

definition spec_lifeguard_bonus :: "bool \<Rightarrow> int" where
  "spec_lifeguard_bonus has_lifeguard = (if has_lifeguard then 1 else 0)"

subsection \<open>What the tide loop selects\<close>

text \<open>
  An entry is a candidate of a kind when the loop does not skip it (its time is not
  earlier than the current time) and its type is that kind.
\<close>

definition is_candidate :: "int \<Rightarrow> string \<Rightarrow> 'h tide \<Rightarrow> int \<Rightarrow> bool" where
  "is_candidate now_utc ty e t \<longleftrightarrow>
     tide_time e = Aware t \<and> now_utc \<le> t \<and> tide_type e = Some ty"

text \<open>
  The result for one kind: nothing when the list has no candidate, and otherwise the
  time and height of a candidate that no candidate precedes.
\<close>

definition earliest_candidate ::
  "int \<Rightarrow> string \<Rightarrow> 'h tide list \<Rightarrow> 'h next_tide option \<Rightarrow> bool" where
  "earliest_candidate now_utc ty data r \<longleftrightarrow>
     (case r of
        None \<Rightarrow> \<forall>e \<in> set data. \<forall>t. \<not> is_candidate now_utc ty e t
      | Some n \<Rightarrow>
          now_utc \<le> nt_time n \<and>
          (\<exists>e \<in> set data. is_candidate now_utc ty e (nt_time n) \<and> nt_height n = height_of e) \<and>
          (\<forall>e \<in> set data. \<forall>t. is_candidate now_utc ty e t \<longrightarrow> nt_time n \<le> t))"

text \<open>
  The loop invariant, for one kind: over the entries \<open>xs\<close> the loop either keeps the
  value \<open>old\<close> it started with, which then precedes every candidate of \<open>xs\<close>, or ends
  with a candidate of \<open>xs\<close> that is strictly earlier than \<open>old\<close> and that no candidate
  of \<open>xs\<close> precedes.
\<close>

definition improves ::
  "int \<Rightarrow> string \<Rightarrow> 'h tide list \<Rightarrow> 'h next_tide option \<Rightarrow> 'h next_tide option \<Rightarrow> bool" where
  "improves now_utc ty xs old new \<longleftrightarrow>
     (new = old \<and>
        (\<forall>e \<in> set xs. \<forall>t. is_candidate now_utc ty e t \<longrightarrow> (\<exists>n. old = Some n \<and> nt_time n \<le> t)))
     \<or> (\<exists>n. new = Some n \<and>
          (\<exists>e \<in> set xs. is_candidate now_utc ty e (nt_time n) \<and> nt_height n = height_of e) \<and>
          (\<forall>e \<in> set xs. \<forall>t. is_candidate now_utc ty e t \<longrightarrow> nt_time n \<le> t) \<and>
          (\<forall>m. old = Some m \<longrightarrow> nt_time n < nt_time m))"

subsection \<open>Matching a needle in the text as it stands\<close>

text \<open>
  What a match of a lower-case needle in the lower-cased text means at one position of
  the text as it stands: letter by letter in either case, the Kelvin sign standing for
  \<^verbatim>\<open>k\<close> and the capital I with dot above for a last \<^verbatim>\<open>i\<close>.
\<close>

definition is_lower_letter :: "char \<Rightarrow> bool" where
  "is_lower_letter n \<longleftrightarrow> 97 \<le> (of_char n :: nat) \<and> (of_char n :: nat) \<le> 122"

fun matches_at :: "string \<Rightarrow> string \<Rightarrow> bool" where
  "matches_at [] body = True"
| "matches_at (n # ns) body =
     ((case body of [] \<Rightarrow> False | c # cs \<Rightarrow> same_letter n c \<and> matches_at ns cs)
      \<or> (n = CHR ''k'' \<and> prefix kelvin_sign body \<and> matches_at ns (drop 3 body))
      \<or> (n = CHR ''i'' \<and> ns = [] \<and> prefix capital_I_dot body))"

fun ci_in :: "string \<Rightarrow> string \<Rightarrow> bool" where
  "ci_in needle [] = matches_at needle []"
| "ci_in needle (c # cs) = (matches_at needle (c # cs) \<or> ci_in needle cs)"

section \<open>Properties\<close>

subsection \<open>Substring test\<close>

lemma py_in_sublist: "py_in needle s = sublist needle s"
  by (induction s) (simp_all add: sublist_Cons_right)

lemma py_in_iff: "py_in needle s \<longleftrightarrow> (\<exists>before after. s = before @ needle @ after)"
  by (simp add: py_in_sublist sublist_def)


subsection \<open>Looking for a needle in the lower-cased text\<close>

lemma lower_char_eq:
  assumes "is_lower_letter n"
  shows "lower_char c = n \<longleftrightarrow> same_letter n c"
proof (cases "65 \<le> (of_char c :: nat) \<and> (of_char c :: nat) \<le> 90")
  case True
  have "lower_char c = n \<longleftrightarrow> (of_char (char_of (of_char c + 32 :: nat) :: char) :: nat) = of_char n"
    using True by (simp add: lower_char_def Let_def del: of_char_of)
  also have "\<dots> \<longleftrightarrow> (of_char c + 32 :: nat) = of_char n"
    using True by simp
  also have "\<dots> \<longleftrightarrow> same_letter n c"
    using True assms by (auto simp add: same_letter_def is_lower_letter_def)
  finally show ?thesis .
next
  case False
  then have "lower_char c = c" by (auto simp add: lower_char_def Let_def)
  moreover have "same_letter n c \<longleftrightarrow> c = n"
    using False assms by (auto simp add: same_letter_def is_lower_letter_def)
  ultimately show ?thesis by auto
qed

lemma same_letter_high:
  "is_lower_letter n \<Longrightarrow> 128 \<le> (of_char c :: nat) \<Longrightarrow> \<not> same_letter n c"
  by (auto simp add: same_letter_def is_lower_letter_def)

lemma matches_at_high:
  assumes "is_lower_letter n" "128 \<le> (of_char c :: nat)" "c \<noteq> CHR 0xC4" "c \<noteq> CHR 0xE2"
  shows "\<not> matches_at (n # ns) (c # cs)"
  using assms same_letter_high[OF assms(1,2)]
  by (simp add: kelvin_sign_def capital_I_dot_def)

lemma prefix_lower:
  "list_all is_lower_letter needle \<Longrightarrow> prefix needle (lower body) \<longleftrightarrow> matches_at needle body"
proof (induction needle arbitrary: body)
  case Nil
  then show ?case by simp
next
  case (Cons n ns)
  then have n: "is_lower_letter n" and ns: "list_all is_lower_letter ns" by simp_all
  note IH = Cons.IH[OF ns]
  show ?case
  proof (cases body)
    case Nil
    then show ?thesis by (simp add: kelvin_sign_def capital_I_dot_def)
  next
    case (Cons c cs)
    consider (dot) "prefix capital_I_dot (c # cs)"
      | (kelvin) "prefix kelvin_sign (c # cs)"
      | (plain) "\<not> prefix capital_I_dot (c # cs)" "\<not> prefix kelvin_sign (c # cs)"
      by blast
    then show ?thesis
    proof cases
      case dot
      then obtain r where r: "c = CHR 0xC4" "cs = CHR 0xB0 # r"
        by (auto simp add: capital_I_dot_def prefix_def)
      have hd: "\<not> is_lower_letter (CHR 0xCC)" by (simp add: is_lower_letter_def)
      have "prefix ns (CHR 0xCC # CHR 0x87 # lower r) \<longleftrightarrow> ns = []"
        using ns hd by (cases ns) auto
      moreover have "\<not> same_letter n (CHR 0xC4)"
        using same_letter_high[OF n, of "CHR 0xC4"] by simp
      ultimately show ?thesis
        unfolding Cons r by (auto simp add: capital_I_dot_def kelvin_sign_def)
    next
      case kelvin
      then obtain r where r: "c = CHR 0xE2" "cs = CHR 0x84 # CHR 0xAA # r"
        by (auto simp add: kelvin_sign_def prefix_def)
      have "\<not> same_letter n (CHR 0xE2)"
        using same_letter_high[OF n, of "CHR 0xE2"] by simp
      then show ?thesis
        unfolding Cons r using IH[of r] by (auto simp add: capital_I_dot_def kelvin_sign_def)
    next
      case plain
      then have "lower (c # cs) = lower_char c # lower cs" by simp
      then show ?thesis
        unfolding Cons using IH[of cs] plain lower_char_eq[OF n, of c]
        by (auto simp del: lower.simps)
    qed
  qed
qed


lemma ci_in_iff: "ci_in needle s \<longleftrightarrow> (\<exists>before after. s = before @ after \<and> matches_at needle after)"
proof (induction s)
  case Nil
  then show ?case by simp
next
  case (Cons c cs)
  have "(\<exists>before after. c # cs = before @ after \<and> matches_at needle after) \<longleftrightarrow>
        matches_at needle (c # cs) \<or> (\<exists>before after. cs = before @ after \<and> matches_at needle after)"
    by (auto simp add: Cons_eq_append_conv)
  with Cons.IH show ?case by simp
qed

lemma not_prefix_high:
  "is_lower_letter n \<Longrightarrow> 128 \<le> (of_char c :: nat) \<Longrightarrow> \<not> prefix (n # ns) (c # cs)"
  by (auto simp add: is_lower_letter_def)

lemma py_in_lower:
  assumes low: "list_all is_lower_letter (n # ns)"
  shows "py_in (n # ns) (lower s) \<longleftrightarrow> ci_in (n # ns) s"
proof (induction s rule: lower.induct)
  case 1
  then show ?case by (simp add: kelvin_sign_def capital_I_dot_def)
next
  case (2 c cs)
  from low have n: "is_lower_letter n" by simp
  note pl = prefix_lower[OF low]
  consider (dot) "prefix capital_I_dot (c # cs)"
    | (kelvin) "\<not> prefix capital_I_dot (c # cs)" "prefix kelvin_sign (c # cs)"
    | (plain) "\<not> prefix capital_I_dot (c # cs)" "\<not> prefix kelvin_sign (c # cs)"
    by blast
  then show ?case
  proof cases
    case dot
    then obtain r where r: "c = CHR 0xC4" "cs = CHR 0xB0 # r"
      by (auto simp add: capital_I_dot_def prefix_def)
    have IH: "py_in (n # ns) (lower r) \<longleftrightarrow> ci_in (n # ns) r"
      using "2.IH"(1)[OF dot] r by simp
    have low_eq: "lower (c # cs) = CHR ''i'' # CHR 0xCC # CHR 0x87 # lower r"
      using dot r by simp
    have a: "\<not> prefix (n # ns) (CHR 0xCC # CHR 0x87 # lower r)"
      by (rule not_prefix_high[OF n]) simp
    have b: "\<not> prefix (n # ns) (CHR 0x87 # lower r)"
      by (rule not_prefix_high[OF n]) simp
    have c: "\<not> matches_at (n # ns) (CHR 0xB0 # r)"
      by (rule matches_at_high[OF n]) simp_all
    have "py_in (n # ns) (lower (c # cs)) \<longleftrightarrow>
            prefix (n # ns) (lower (c # cs)) \<or> py_in (n # ns) (lower r)"
      unfolding low_eq using a b by auto
    also have "\<dots> \<longleftrightarrow> matches_at (n # ns) (c # cs) \<or> ci_in (n # ns) r"
      using pl[of "c # cs"] IH by simp
    also have "\<dots> \<longleftrightarrow> ci_in (n # ns) (c # cs)"
      unfolding r ci_in.simps using c by blast
    finally show ?thesis .
  next
    case kelvin
    then obtain r where r: "c = CHR 0xE2" "cs = CHR 0x84 # CHR 0xAA # r"
      by (auto simp add: kelvin_sign_def prefix_def)
    have IH: "py_in (n # ns) (lower r) \<longleftrightarrow> ci_in (n # ns) r"
      using "2.IH"(2)[OF kelvin] r by simp
    have low_eq: "lower (c # cs) = CHR ''k'' # lower r"
      using kelvin r by simp
    have c: "\<not> matches_at (n # ns) (CHR 0x84 # CHR 0xAA # r)"
      by (rule matches_at_high[OF n]) simp_all
    have d: "\<not> matches_at (n # ns) (CHR 0xAA # r)"
      by (rule matches_at_high[OF n]) simp_all
    have "py_in (n # ns) (lower (c # cs)) \<longleftrightarrow>
            prefix (n # ns) (lower (c # cs)) \<or> py_in (n # ns) (lower r)"
      unfolding low_eq by simp
    also have "\<dots> \<longleftrightarrow> matches_at (n # ns) (c # cs) \<or> ci_in (n # ns) r"
      using pl[of "c # cs"] IH by simp
    also have "\<dots> \<longleftrightarrow> ci_in (n # ns) (c # cs)"
      unfolding r ci_in.simps using c d by blast
    finally show ?thesis .
  next
    case plain
    have IH: "py_in (n # ns) (lower cs) \<longleftrightarrow> ci_in (n # ns) cs"
      using "2.IH"(3)[OF plain] .
    have low_eq: "lower (c # cs) = lower_char c # lower cs"
      using plain by simp
    have "py_in (n # ns) (lower (c # cs)) \<longleftrightarrow>
            prefix (n # ns) (lower (c # cs)) \<or> py_in (n # ns) (lower cs)"
      unfolding low_eq by simp
    also have "\<dots> \<longleftrightarrow> matches_at (n # ns) (c # cs) \<or> ci_in (n # ns) cs"
      using pl[of "c # cs"] IH by simp
    finally show ?thesis unfolding ci_in.simps .
  qed
qed

lemma matches_at_split:
  assumes "CHR ''k'' \<notin> set ns" and "rest = [] \<longrightarrow> ns = [] \<or> last ns \<noteq> CHR ''i''"
  shows "matches_at (ns @ rest) s \<longleftrightarrow>
           (\<exists>stem after. s = stem @ after \<and> list_all2 same_letter ns stem \<and> matches_at rest after)"
  using assms
proof (induction ns arbitrary: s)
  case Nil
  then show ?case by simp
next
  case (Cons n ns)
  have k: "n \<noteq> CHR ''k''" and ks: "CHR ''k'' \<notin> set ns" using Cons.prems(1) by auto
  have i: "\<not> (n = CHR ''i'' \<and> ns @ rest = [])" using Cons.prems(2) by auto
  have tl: "rest = [] \<longrightarrow> ns = [] \<or> last ns \<noteq> CHR ''i''" using Cons.prems(2) by auto
  note IH = Cons.IH[OF ks tl]
  have "matches_at ((n # ns) @ rest) s \<longleftrightarrow>
          (\<exists>c cs. s = c # cs \<and> same_letter n c \<and> matches_at (ns @ rest) cs)"
    using k i by (cases s) auto
  also have "\<dots> \<longleftrightarrow>
     (\<exists>c cs stem after. s = c # cs \<and> same_letter n c \<and> cs = stem @ after \<and>
        list_all2 same_letter ns stem \<and> matches_at rest after)"
    using IH by blast
  also have "\<dots> \<longleftrightarrow>
     (\<exists>stem after. s = stem @ after \<and> list_all2 same_letter (n # ns) stem \<and> matches_at rest after)"
  proof
    assume "\<exists>c cs stem after. s = c # cs \<and> same_letter n c \<and> cs = stem @ after \<and>
        list_all2 same_letter ns stem \<and> matches_at rest after"
    then obtain c stem after where "s = (c # stem) @ after" "list_all2 same_letter (n # ns) (c # stem)"
      "matches_at rest after" by auto
    then show "\<exists>stem after. s = stem @ after \<and> list_all2 same_letter (n # ns) stem \<and> matches_at rest after"
      by blast
  next
    assume "\<exists>stem after. s = stem @ after \<and> list_all2 same_letter (n # ns) stem \<and> matches_at rest after"
    then obtain c stem after where "s = c # stem @ after" "same_letter n c"
      "list_all2 same_letter ns stem" "matches_at rest after"
      by (auto simp add: list_all2_Cons1)
    then show "\<exists>c cs stem after. s = c # cs \<and> same_letter n c \<and> cs = stem @ after \<and>
        list_all2 same_letter ns stem \<and> matches_at rest after"
      by blast
  qed
  finally show ?case .
qed

lemma py_in_lower_plain:
  assumes low: "list_all is_lower_letter (n # ns)"
    and k: "CHR ''k'' \<notin> set (n # ns)" and i: "last (n # ns) \<noteq> CHR ''i''"
  shows "py_in (n # ns) (lower s) \<longleftrightarrow> contains_ignoring_case (n # ns) s"
proof -
  have m: "matches_at (n # ns) t \<longleftrightarrow>
            (\<exists>seg after. t = seg @ after \<and> list_all2 same_letter (n # ns) seg)" for t
    using matches_at_split[of "n # ns" "[]" t] k i by simp
  have "py_in (n # ns) (lower s) \<longleftrightarrow>
          (\<exists>before seg after. s = before @ seg @ after \<and> list_all2 same_letter (n # ns) seg)"
    unfolding py_in_lower[OF low] ci_in_iff m by blast
  also have "\<dots> \<longleftrightarrow> contains_ignoring_case (n # ns) s"
    unfolding contains_ignoring_case_def sublist_def by blast
  finally show ?thesis .
qed


lemma rain_in_lower: "py_in ''rain'' (lower s) \<longleftrightarrow> contains_ignoring_case ''rain'' s"
  using py_in_lower_plain[of "CHR ''r''" "''ain''" s] by (simp add: is_lower_letter_def)

lemma cyclone_in_lower: "py_in ''cyclone'' (lower s) \<longleftrightarrow> contains_ignoring_case ''cyclone'' s"
  using py_in_lower_plain[of "CHR ''c''" "''yclone''" s] by (simp add: is_lower_letter_def)

lemma matches_at_final_i:
  "matches_at ''i'' t \<longleftrightarrow> (\<exists>c cs. t = c # cs \<and> same_letter (CHR ''i'') c) \<or> prefix capital_I_dot t"
  by (cases t) (simp_all add: capital_I_dot_def)

lemma tsunami_in_lower: "py_in ''tsunami'' (lower s) \<longleftrightarrow> mentions_tsunami s"
proof -
  have low: "list_all is_lower_letter ''tsunami''" by (simp add: is_lower_letter_def)
  have m: "matches_at ''tsunami'' t \<longleftrightarrow>
      (\<exists>stem after. t = stem @ after \<and> list_all2 same_letter ''tsunam'' stem \<and> matches_at ''i'' after)" for t
    using matches_at_split[of "''tsunam''" "''i''" t] by simp
  have plain: "contains_ignoring_case ''tsunami'' s \<longleftrightarrow>
      (\<exists>before stem c cs. s = before @ stem @ c # cs \<and> list_all2 same_letter ''tsunam'' stem \<and>
         same_letter (CHR ''i'') c)"
  proof
    assume "contains_ignoring_case ''tsunami'' s"
    then obtain seg before after where seg: "s = before @ seg @ after"
      "list_all2 same_letter (''tsunam'' @ ''i'') seg"
      unfolding contains_ignoring_case_def sublist_def by auto
    from seg(2) obtain stem c where "seg = stem @ [c]" "list_all2 same_letter ''tsunam'' stem"
      "same_letter (CHR ''i'') c"
      unfolding list_all2_append1 by (auto simp add: list_all2_Cons1)
    with seg(1) show "\<exists>before stem c cs. s = before @ stem @ c # cs \<and>
        list_all2 same_letter ''tsunam'' stem \<and> same_letter (CHR ''i'') c"
      by auto
  next
    assume "\<exists>before stem c cs. s = before @ stem @ c # cs \<and>
        list_all2 same_letter ''tsunam'' stem \<and> same_letter (CHR ''i'') c"
    then obtain before stem c cs where h: "s = before @ (stem @ [c]) @ cs"
      "list_all2 same_letter ''tsunam'' stem" "same_letter (CHR ''i'') c" by auto
    from h(2,3) have "list_all2 same_letter (''tsunam'' @ ''i'') (stem @ [c])"
      by (intro list_all2_appendI) simp_all
    then have "list_all2 same_letter ''tsunami'' (stem @ [c])" by simp
    with h(1) show "contains_ignoring_case ''tsunami'' s"
      unfolding contains_ignoring_case_def sublist_def by blast
  qed
  have dotted: "(\<exists>stem. sublist (stem @ capital_I_dot) s \<and> list_all2 same_letter ''tsunam'' stem) \<longleftrightarrow>
      (\<exists>before stem after. s = before @ stem @ after \<and> list_all2 same_letter ''tsunam'' stem \<and>
         prefix capital_I_dot after)"
    unfolding sublist_def prefix_def by (metis append.assoc)
  have "py_in ''tsunami'' (lower s) \<longleftrightarrow>
      (\<exists>before stem after. s = before @ stem @ after \<and> list_all2 same_letter ''tsunam'' stem \<and>
         matches_at ''i'' after)"
    unfolding py_in_lower[OF low] ci_in_iff m by blast
  also have "\<dots> \<longleftrightarrow>
      (\<exists>before stem c cs. s = before @ stem @ c # cs \<and> list_all2 same_letter ''tsunam'' stem \<and>
         same_letter (CHR ''i'') c) \<or>
      (\<exists>before stem after. s = before @ stem @ after \<and> list_all2 same_letter ''tsunam'' stem \<and>
         prefix capital_I_dot after)"
    unfolding matches_at_final_i by blast
  also have "\<dots> \<longleftrightarrow> mentions_tsunami s"
    unfolding mentions_tsunami_def plain dotted ..
  finally show ?thesis .
qed

subsection \<open>General safety rating\<close>

text \<open>
  C1. For every weather observation, the rating before rounding and bounding is 8 minus
  four deductions that add up independently: the condition deduction (4 when the text
  contains \<^verbatim>\<open>Thunderstorm\<close>, else 2 when it contains \<^verbatim>\<open>Rain\<close>, else 1 when it
  contains \<^verbatim>\<open>Fog\<close>, case-sensitively, the first match only), the temperature
  deduction (2 above 35, else 1 below 10), the wind deduction (3 above 30, else 1 above
  20) and the UV deduction (1 above 8); \<^const>\<open>get_safety_rating\<close> is that value rounded
  and bounded.
\<close>

theorem safety_rating_linear_deductions:
  "rating_before_bounds w =
     8 - spec_condition_deduction (conditions w) - spec_temperature_deduction (temp w)
       - spec_wind_deduction (wind w) - spec_uv_deduction (uv_index w) \<and>
   get_safety_rating w =
     max 0 (min 10 (py_round1
       (8 - spec_condition_deduction (conditions w) - spec_temperature_deduction (temp w)
          - spec_wind_deduction (wind w) - spec_uv_deduction (uv_index w))))"
proof -
  have "rating_before_bounds w =
     8 - spec_condition_deduction (conditions w) - spec_temperature_deduction (temp w)
       - spec_wind_deduction (wind w) - spec_uv_deduction (uv_index w)"
    by (simp add: rating_before_bounds_def Let_def py_in_sublist spec_condition_deduction_def
        spec_temperature_deduction_def spec_wind_deduction_def spec_uv_deduction_def)
  then show ?thesis by (simp add: get_safety_rating_def)
qed

lemma py_round1_of_int: "py_round1 (of_int k) = of_int k"
proof -
  have "real_of_int k * 10 = of_int (k * 10)" by simp
  then have "\<lfloor>real_of_int k * 10\<rfloor> = k * 10" by (metis floor_of_int)
  then show ?thesis by (simp add: py_round1_def Let_def)
qed

lemma rating_before_bounds_Ints: "rating_before_bounds w \<in> \<int>"
  by (simp add: rating_before_bounds_def Let_def)

lemma bounds_of_int: "max 0 (min 10 (real_of_int k)) = of_int (max 0 (min 10 k))"
  by (simp add: max_def min_def)

text \<open>
  C2. For every weather observation the rating lies between 0 and 10, equals the rating
  before bounds bounded to that range and then rounded to one decimal place, and is a
  multiple of one tenth.
\<close>

theorem safety_rating_bounded_rounded:
  "0 \<le> get_safety_rating w \<and> get_safety_rating w \<le> 10 \<and>
   get_safety_rating w = py_round1 (max 0 (min 10 (rating_before_bounds w))) \<and>
   (\<exists>k::int. get_safety_rating w = of_int k / 10)"
proof -
  obtain k :: int where k: "rating_before_bounds w = of_int k"
    using rating_before_bounds_Ints by (auto elim: Ints_cases)
  define c where "c = max 0 (min 10 k)"
  have r: "get_safety_rating w = of_int c"
    by (simp add: get_safety_rating_def k py_round1_of_int bounds_of_int c_def)
  have lo: "0 \<le> get_safety_rating w" and hi: "get_safety_rating w \<le> 10"
    unfolding r c_def by simp_all
  have cr: "get_safety_rating w = py_round1 (max 0 (min 10 (rating_before_bounds w)))"
    unfolding r by (simp only: k bounds_of_int py_round1_of_int c_def)
  have "get_safety_rating w = of_int (10 * c) / 10" unfolding r by simp
  then have tenth: "\<exists>k::int. get_safety_rating w = of_int k / 10" by blast
  from lo hi cr tenth show ?thesis by blast
qed

text \<open>
  C3. The label has inclusive lower thresholds: \<^verbatim>\<open>Very Safe\<close> exactly from 8,
  \<^verbatim>\<open>Safe\<close> exactly from 6 to below 8, \<^verbatim>\<open>Caution Advised\<close> exactly from 4 to below
  6, \<^verbatim>\<open>Not Recommended\<close> exactly below 4. A thunderstorm at temperature 20, wind 5
  and UV index 3 rates 4 and is labelled \<^verbatim>\<open>Caution Advised\<close>; a clear sky with the
  same numbers rates 8 and is labelled \<^verbatim>\<open>Very Safe\<close>.
\<close>

theorem safety_label_thresholds:
  "(safety_label r = ''Very Safe'' \<longleftrightarrow> 8 \<le> r) \<and>
   (safety_label r = ''Safe'' \<longleftrightarrow> 6 \<le> r \<and> r < 8) \<and>
   (safety_label r = ''Caution Advised'' \<longleftrightarrow> 4 \<le> r \<and> r < 6) \<and>
   (safety_label r = ''Not Recommended'' \<longleftrightarrow> r < 4) \<and>
   get_safety_rating (w\<lparr>conditions := ''Thunderstorm'', temp := 20, wind := 5, uv_index := 3\<rparr>) = 4 \<and>
   safety_label
     (get_safety_rating (w\<lparr>conditions := ''Thunderstorm'', temp := 20, wind := 5, uv_index := 3\<rparr>))
     = ''Caution Advised'' \<and>
   get_safety_rating (w\<lparr>conditions := ''Clear'', temp := 20, wind := 5, uv_index := 3\<rparr>) = 8 \<and>
   safety_label
     (get_safety_rating (w\<lparr>conditions := ''Clear'', temp := 20, wind := 5, uv_index := 3\<rparr>))
     = ''Very Safe''"
proof -
  have bands:
    "(safety_label r = ''Very Safe'' \<longleftrightarrow> 8 \<le> r) \<and>
     (safety_label r = ''Safe'' \<longleftrightarrow> 6 \<le> r \<and> r < 8) \<and>
     (safety_label r = ''Caution Advised'' \<longleftrightarrow> 4 \<le> r \<and> r < 6) \<and>
     (safety_label r = ''Not Recommended'' \<longleftrightarrow> r < 4)"
    by (simp add: safety_label_def)
  have storm:
    "get_safety_rating (w\<lparr>conditions := ''Thunderstorm'', temp := 20, wind := 5, uv_index := 3\<rparr>) = 4"
    by (simp add: get_safety_rating_def rating_before_bounds_def py_round1_def)
  have clear:
    "get_safety_rating (w\<lparr>conditions := ''Clear'', temp := 20, wind := 5, uv_index := 3\<rparr>) = 8"
    by (simp add: get_safety_rating_def rating_before_bounds_def py_round1_def)
  have "safety_label 4 = ''Caution Advised''" "safety_label 8 = ''Very Safe''"
    by (simp_all add: safety_label_def)
  with bands storm clear show ?thesis by simp
qed

subsection \<open>Beach safety score\<close>

text \<open>
  C4. For every UV index, hazard list and lifeguard flag the beach score is 8, minus 2
  when the UV index is above 8 and else minus 1 when it is above 5, minus 3 when some
  hazard contains \<^verbatim>\<open>tsunami\<close> and else minus 2 when some hazard contains
  \<^verbatim>\<open>cyclone\<close>, in letters of either case, plus 1 with a lifeguard, bounded to the
  range from 1 to 10. Containment is stated of the hazard text itself, not of its lower
  case; as in Python, the capital I with dot above counts as a capital of the last letter
  of \<^verbatim>\<open>tsunami\<close>. UV index 9 with the hazard \<^verbatim>\<open>Tsunami warning\<close> and no lifeguard
  scores 3; \<^verbatim>\<open>CYCLONE Alert\<close> at UV index 2 with a lifeguard scores 7; \<^verbatim>\<open>TSUNAM\<close>
  followed by the capital I with dot above, at UV index 2 without a lifeguard, scores 5.
\<close>

theorem beach_safety_score_rule:
  "get_beach_safety_score uv hazards has_lifeguard =
     max 1 (min 10 (8 - spec_beach_uv_deduction uv - spec_beach_hazard_deduction hazards
                      + spec_lifeguard_bonus has_lifeguard)) \<and>
   get_beach_safety_score 9 [''Tsunami warning''] False = 3 \<and>
   get_beach_safety_score 2 [''High surf'', ''CYCLONE Alert''] True = 7 \<and>
   get_beach_safety_score 2 [''TSUNAM'' @ capital_I_dot] False = 5"
proof -
  have any_tsunami: "list_ex (\<lambda>h. py_in ''tsunami'' (lower h)) hazards \<longleftrightarrow>
      (\<exists>h \<in> set hazards. mentions_tsunami h)"
    by (simp only: list_ex_iff tsunami_in_lower)
  have any_cyclone: "list_ex (\<lambda>h. py_in ''cyclone'' (lower h)) hazards \<longleftrightarrow>
      (\<exists>h \<in> set hazards. contains_ignoring_case ''cyclone'' h)"
    by (simp only: list_ex_iff cyclone_in_lower)
  have "get_beach_safety_score uv hazards has_lifeguard =
     max 1 (min 10 (8 - spec_beach_uv_deduction uv - spec_beach_hazard_deduction hazards
                      + spec_lifeguard_bonus has_lifeguard))"
    unfolding get_beach_safety_score_def score_before_bounds_def Let_def any_tsunami any_cyclone
    by (simp add: spec_beach_uv_deduction_def spec_beach_hazard_deduction_def
        spec_lifeguard_bonus_def)
  moreover have "get_beach_safety_score 9 [''Tsunami warning''] False = 3"
    by code_simp
  moreover have "get_beach_safety_score 2 [''High surf'', ''CYCLONE Alert''] True = 7"
    by code_simp
  moreover have "get_beach_safety_score 2 [''TSUNAM'' @ capital_I_dot] False = 5"
    by code_simp
  ultimately show ?thesis by blast
qed

text \<open>
  C10. For every input the beach score lies between 3 and 9, and it is the score before
  bounds: neither bound of the final \<^verbatim>\<open>max(1, min(10, score))\<close> changes it.
\<close>

theorem beach_safety_score_range:
  "3 \<le> get_beach_safety_score uv hazards has_lifeguard \<and>
   get_beach_safety_score uv hazards has_lifeguard \<le> 9 \<and>
   get_beach_safety_score uv hazards has_lifeguard = score_before_bounds uv hazards has_lifeguard"
  by (simp add: get_beach_safety_score_def score_before_bounds_def Let_def)

subsection \<open>UV risk band\<close>

text \<open>
  C6. The UV risk level has inclusive upper bounds: \<^verbatim>\<open>Low\<close> exactly up to 2,
  \<^verbatim>\<open>Moderate\<close> exactly above 2 up to 5, \<^verbatim>\<open>High\<close> exactly above 5 up to 7,
  \<^verbatim>\<open>Very High\<close> exactly above 7 up to 10, \<^verbatim>\<open>Extreme\<close> exactly above 10; 2 is low,
  2.01 is moderate and 11 is extreme.
\<close>

theorem uv_risk_level_bands:
  "(uv_risk_level u = ''Low'' \<longleftrightarrow> u \<le> 2) \<and>
   (uv_risk_level u = ''Moderate'' \<longleftrightarrow> 2 < u \<and> u \<le> 5) \<and>
   (uv_risk_level u = ''High'' \<longleftrightarrow> 5 < u \<and> u \<le> 7) \<and>
   (uv_risk_level u = ''Very High'' \<longleftrightarrow> 7 < u \<and> u \<le> 10) \<and>
   (uv_risk_level u = ''Extreme'' \<longleftrightarrow> 10 < u) \<and>
   uv_risk_level 2 = ''Low'' \<and> uv_risk_level 2.01 = ''Moderate'' \<and> uv_risk_level 11 = ''Extreme''"
  by (simp add: uv_risk_level_def)

subsection \<open>Beach packing list\<close>

text \<open>
  C7. The packing list is the five base items in their order, followed, in this order
  and each on its own test, by the hat item when the UV index is above 8, the fan item
  when the temperature is above 30, the windbreaker item when the wind is above 15 and
  the cover item when the condition text contains \<^verbatim>\<open>rain\<close> in letters of either case
  (stated of the text itself, not of its lower case); its length is between 5 and 9.
  Temperature 31, wind 20, UV index 9 and \<^verbatim>\<open>Light rain\<close> give all nine items;
  \<^verbatim>\<open>RAIN showers\<close> and \<^verbatim>\<open>Heavy RaIn\<close> with low numbers give the base items and the
  cover; \<^verbatim>\<open>Drain\<close> does too, and \<^verbatim>\<open>Overcast\<close> gives the base items alone.
\<close>

theorem beach_packing_list_appends:
  "generate_beach_packing_list w uv =
     [item_sunscreen, item_swimwear, item_towel, item_sunglasses, item_bottle]
     @ (if uv > 8 then [item_hat] else [])
     @ (if temp w > 30 then [item_fan] else [])
     @ (if wind w > 15 then [item_windbreaker] else [])
     @ (if contains_ignoring_case ''rain'' (conditions w) then [item_cover] else []) \<and>
   5 \<le> length (generate_beach_packing_list w uv) \<and>
   length (generate_beach_packing_list w uv) \<le> 9 \<and>
   generate_beach_packing_list (w\<lparr>temp := 31, wind := 20, conditions := ''Light rain''\<rparr>) 9 =
     [item_sunscreen, item_swimwear, item_towel, item_sunglasses, item_bottle,
      item_hat, item_fan, item_windbreaker, item_cover] \<and>
   generate_beach_packing_list (w\<lparr>temp := 20, wind := 5, conditions := ''RAIN showers''\<rparr>) 3 =
     [item_sunscreen, item_swimwear, item_towel, item_sunglasses, item_bottle, item_cover] \<and>
   generate_beach_packing_list (w\<lparr>temp := 20, wind := 5, conditions := ''Heavy RaIn''\<rparr>) 3 =
     [item_sunscreen, item_swimwear, item_towel, item_sunglasses, item_bottle, item_cover] \<and>
   generate_beach_packing_list (w\<lparr>temp := 20, wind := 5, conditions := ''Drain''\<rparr>) 3 =
     [item_sunscreen, item_swimwear, item_towel, item_sunglasses, item_bottle, item_cover] \<and>
   generate_beach_packing_list (w\<lparr>temp := 20, wind := 5, conditions := ''Overcast''\<rparr>) 3 =
     [item_sunscreen, item_swimwear, item_towel, item_sunglasses, item_bottle]"
proof -
  have shape: "generate_beach_packing_list w uv =
     [item_sunscreen, item_swimwear, item_towel, item_sunglasses, item_bottle]
     @ (if uv > 8 then [item_hat] else [])
     @ (if temp w > 30 then [item_fan] else [])
     @ (if wind w > 15 then [item_windbreaker] else [])
     @ (if contains_ignoring_case ''rain'' (conditions w) then [item_cover] else [])"
    unfolding generate_beach_packing_list_def Let_def rain_in_lower by simp
  have len: "5 \<le> length (generate_beach_packing_list w uv)"
    "length (generate_beach_packing_list w uv) \<le> 9"
    unfolding shape by simp_all
  have rain: "py_in ''rain'' (lower ''Light rain'')" "py_in ''rain'' (lower ''RAIN showers'')"
    "py_in ''rain'' (lower ''Heavy RaIn'')" "py_in ''rain'' (lower ''Drain'')"
    "\<not> py_in ''rain'' (lower ''Overcast'')"
    by code_simp+
  have full:
    "generate_beach_packing_list (w\<lparr>temp := 31, wind := 20, conditions := ''Light rain''\<rparr>) 9 =
       [item_sunscreen, item_swimwear, item_towel, item_sunglasses, item_bottle,
        item_hat, item_fan, item_windbreaker, item_cover]"
    unfolding generate_beach_packing_list_def Let_def using rain(1) by simp
  have upper:
    "generate_beach_packing_list (w\<lparr>temp := 20, wind := 5, conditions := ''RAIN showers''\<rparr>) 3 =
       [item_sunscreen, item_swimwear, item_towel, item_sunglasses, item_bottle, item_cover]"
    unfolding generate_beach_packing_list_def Let_def using rain(2) by simp
  have mixed:
    "generate_beach_packing_list (w\<lparr>temp := 20, wind := 5, conditions := ''Heavy RaIn''\<rparr>) 3 =
       [item_sunscreen, item_swimwear, item_towel, item_sunglasses, item_bottle, item_cover]"
    unfolding generate_beach_packing_list_def Let_def using rain(3) by simp
  have inside:
    "generate_beach_packing_list (w\<lparr>temp := 20, wind := 5, conditions := ''Drain''\<rparr>) 3 =
       [item_sunscreen, item_swimwear, item_towel, item_sunglasses, item_bottle, item_cover]"
    unfolding generate_beach_packing_list_def Let_def using rain(4) by simp
  have none:
    "generate_beach_packing_list (w\<lparr>temp := 20, wind := 5, conditions := ''Overcast''\<rparr>) 3 =
       [item_sunscreen, item_swimwear, item_towel, item_sunglasses, item_bottle]"
    unfolding generate_beach_packing_list_def Let_def using rain(5) by simp
  from shape len full upper mixed inside none show ?thesis by blast
qed

subsection \<open>Weather codes\<close>

text \<open>
  C8. The weather code table has exactly the keys 0, 1, 2, 3, 45, 51, 61, 80 and 95, each
  with its description (95 is \<^verbatim>\<open>Thunderstorm\<close>), and every other integer code gives
  \<^verbatim>\<open>Unknown weather conditions\<close>.
\<close>

theorem weather_code_lookup:
  "translate_weather_code 0 = ''Clear sky'' \<and>
   translate_weather_code 1 = ''Mainly clear'' \<and>
   translate_weather_code 2 = ''Partly cloudy'' \<and>
   translate_weather_code 3 = ''Overcast'' \<and>
   translate_weather_code 45 = ''Fog'' \<and>
   translate_weather_code 51 = ''Light drizzle'' \<and>
   translate_weather_code 61 = ''Light rain'' \<and>
   translate_weather_code 80 = ''Rain showers'' \<and>
   translate_weather_code 95 = ''Thunderstorm'' \<and>
   dom (map_of weather_codes) = {0, 1, 2, 3, 45, 51, 61, 80, 95} \<and>
   (code \<notin> {0, 1, 2, 3, 45, 51, 61, 80, 95} \<longrightarrow>
      translate_weather_code code = ''Unknown weather conditions'')"
  by (auto simp add: translate_weather_code_def dict_get_def weather_codes_def)

theorem weather_code_lookup_witness:
  "(999::int) \<notin> {0, 1, 2, 3, 45, 51, 61, 80, 95} \<and>
   translate_weather_code 999 = ''Unknown weather conditions''"
  using weather_code_lookup [of 999] by simp

subsection \<open>Flight distance\<close>

text \<open>
  C9. When the origin or the destination does not resolve, that is, when one of the two
  latitudes and two longitudes is \<^verbatim>\<open>None\<close>, the flight distance is the value 0 and
  not an error.
\<close>

theorem flight_distance_unresolved:
  assumes "get_coordinates origin = (orig_lat, orig_lng, orig_name)"
    and "get_coordinates destination = (dest_lat, dest_lng, dest_name)"
    and "orig_lat = None \<or> orig_lng = None \<or> dest_lat = None \<or> dest_lng = None"
  shows "estimate_flight_distance get_coordinates great_circle_km origin destination = Inr 0"
  using assms by (auto simp add: estimate_flight_distance_def)

theorem flight_distance_unresolved_witness:
  "estimate_flight_distance
     (\<lambda>place. if place = ''Atlantis'' then (None, None, None)
              else (Some 19.8, Some 85.8, Some ''Puri, Odisha, India''))
     (\<lambda>p q. Inl ValueError) ''Puri'' ''Atlantis'' = Inr 0"
  using flight_distance_unresolved
    [of "\<lambda>place. if place = ''Atlantis'' then (None, None, None)
                  else (Some 19.8, Some 85.8, Some ''Puri, Odisha, India'')"
        "''Puri''" "Some 19.8" "Some 85.8" "Some ''Puri, Odisha, India''"
        "''Atlantis''" None None None "\<lambda>p q. Inl ValueError"]
  by simp

subsection \<open>Tide extremes\<close>

lemma improves_Nil: "improves now ty [] old old"
  by (simp add: improves_def)

lemma improves_skip:
  assumes "improves now ty xs old new" "\<forall>t. \<not> is_candidate now ty x t"
  shows "improves now ty (x # xs) old new"
  using assms unfolding improves_def by auto

lemma is_candidate_time: "is_candidate now ty x t' \<Longrightarrow> tide_time x = Aware t \<Longrightarrow> t' = t"
  by (simp add: is_candidate_def)

lemma improves_keep:
  assumes imp: "improves now ty xs (Some m) new" and le: "nt_time m \<le> t"
    and tm: "tide_time x = Aware t"
  shows "improves now ty (x # xs) (Some m) new"
proof -
  from imp consider
      (same) "new = Some m"
        "\<forall>e \<in> set xs. \<forall>t. is_candidate now ty e t \<longrightarrow> (\<exists>n. Some m = Some n \<and> nt_time n \<le> t)"
    | (better) n where "new = Some n"
        "\<exists>e \<in> set xs. is_candidate now ty e (nt_time n) \<and> nt_height n = height_of e"
        "\<forall>e \<in> set xs. \<forall>t. is_candidate now ty e t \<longrightarrow> nt_time n \<le> t"
        "nt_time n < nt_time m"
    unfolding improves_def by auto
  then show ?thesis
  proof cases
    case same
    have "\<forall>e \<in> set (x # xs). \<forall>t. is_candidate now ty e t \<longrightarrow> (\<exists>n. Some m = Some n \<and> nt_time n \<le> t)"
      using same(2) le is_candidate_time[OF _ tm] by auto
    with same(1) show ?thesis unfolding improves_def by blast
  next
    case better
    have a: "\<forall>e \<in> set (x # xs). \<forall>t. is_candidate now ty e t \<longrightarrow> nt_time n \<le> t"
      using better(3,4) le is_candidate_time[OF _ tm] by fastforce
    have b: "\<exists>e \<in> set (x # xs). is_candidate now ty e (nt_time n) \<and> nt_height n = height_of e"
      using better(2) by auto
    have c: "\<forall>k. Some m = Some k \<longrightarrow> nt_time n < nt_time k"
      using better(4) by simp
    show ?thesis unfolding improves_def using better(1) a b c by blast
  qed
qed

lemma improves_take:
  assumes imp: "improves now ty xs (Some \<lparr>nt_time = t, nt_height = height_of x\<rparr>) new"
    and cand: "is_candidate now ty x t"
    and old: "\<forall>m. old = Some m \<longrightarrow> t < nt_time m"
  shows "improves now ty (x # xs) old new"
proof -
  let ?c = "\<lparr>nt_time = t, nt_height = height_of x\<rparr>"
  have tm: "tide_time x = Aware t" using cand by (simp add: is_candidate_def)
  from imp consider
      (same) "new = Some ?c"
        "\<forall>e \<in> set xs. \<forall>t'. is_candidate now ty e t' \<longrightarrow> t \<le> t'"
    | (better) n where "new = Some n"
        "\<exists>e \<in> set xs. is_candidate now ty e (nt_time n) \<and> nt_height n = height_of e"
        "\<forall>e \<in> set xs. \<forall>t. is_candidate now ty e t \<longrightarrow> nt_time n \<le> t"
        "nt_time n < t"
    unfolding improves_def by auto
  then show ?thesis
  proof cases
    case same
    have a: "\<forall>e \<in> set (x # xs). \<forall>t'. is_candidate now ty e t' \<longrightarrow> nt_time ?c \<le> t'"
      using same(2) is_candidate_time[OF _ tm] by auto
    have b: "\<exists>e \<in> set (x # xs). is_candidate now ty e (nt_time ?c) \<and> nt_height ?c = height_of e"
      using cand by simp
    have c: "\<forall>k. old = Some k \<longrightarrow> nt_time ?c < nt_time k"
      using old by simp
    show ?thesis unfolding improves_def using same(1) a b c by blast
  next
    case better
    have a: "\<forall>e \<in> set (x # xs). \<forall>t. is_candidate now ty e t \<longrightarrow> nt_time n \<le> t"
      using better(3,4) is_candidate_time[OF _ tm] by fastforce
    have b: "\<exists>e \<in> set (x # xs). is_candidate now ty e (nt_time n) \<and> nt_height n = height_of e"
      using better(2) by auto
    have c: "\<forall>k. old = Some k \<longrightarrow> nt_time n < nt_time k"
      using better(4) old by fastforce
    show ?thesis unfolding improves_def using better(1) a b c by blast
  qed
qed

lemma not_candidate_past: "tide_time x = Aware t \<Longrightarrow> t < now \<Longrightarrow> \<not> is_candidate now ty x t'"
  by (auto simp add: is_candidate_def)

lemma not_candidate_type: "tide_type x = Some ty' \<Longrightarrow> ty' \<noteq> ty \<Longrightarrow> \<not> is_candidate now ty x t'"
  by (simp add: is_candidate_def)

lemma tide_loop_improves:
  "tide_loop now xs (nh, nl) = Inr (nh', nl') \<Longrightarrow>
     improves now ''high'' xs nh nh' \<and> improves now ''low'' xs nl nl'"
proof (induction xs arbitrary: nh nl)
  case Nil
  then show ?case by (simp add: improves_Nil)
next
  case (Cons x xs)
  show ?case
  proof (cases "tide_time x")
    case Unusable
    with Cons.prems show ?thesis by simp
  next
    case (Aware t)
    show ?thesis
    proof (cases "t < now")
      case True
      with Aware Cons.prems have "tide_loop now xs (nh, nl) = Inr (nh', nl')" by simp
      from Cons.IH[OF this] not_candidate_past[OF Aware True] show ?thesis
        by (simp add: improves_skip)
    next
      case False
      show ?thesis
      proof (cases "tide_type x")
        case None
        with Aware False Cons.prems show ?thesis by simp
      next
        case (Some ty)
        consider (high) "ty = ''high''" | (low) "ty = ''low''"
          | (other) "ty \<noteq> ''high''" "ty \<noteq> ''low''" by blast
        then show ?thesis
        proof cases
          case high
          have cand: "is_candidate now ''high'' x t"
            using Aware False Some high by (simp add: is_candidate_def)
          have nolow: "\<forall>t'. \<not> is_candidate now ''low'' x t'"
            using not_candidate_type[OF Some] high by simp
          show ?thesis
          proof (cases "case nh of None \<Rightarrow> True | Some h \<Rightarrow> t < nt_time h")
            case True
            with Aware False Some high Cons.prems
            have "tide_loop now xs (Some \<lparr>nt_time = t, nt_height = height_of x\<rparr>, nl) = Inr (nh', nl')"
              by simp
            from Cons.IH[OF this] have
              h: "improves now ''high'' xs (Some \<lparr>nt_time = t, nt_height = height_of x\<rparr>) nh'"
              and l: "improves now ''low'' xs nl nl'" by simp_all
            have "\<forall>m. nh = Some m \<longrightarrow> t < nt_time m" using True by (cases nh) auto
            from improves_take[OF h cand this] improves_skip[OF l nolow] show ?thesis by simp
          next
            case F: False
            then obtain m where m: "nh = Some m" "nt_time m \<le> t"
              by (cases nh) auto
            from F Aware False Some high Cons.prems
            have "tide_loop now xs (nh, nl) = Inr (nh', nl')" by simp
            from Cons.IH[OF this] have
              h: "improves now ''high'' xs (Some m) nh'"
              and l: "improves now ''low'' xs nl nl'" using m by simp_all
            from improves_keep[OF h m(2) Aware] improves_skip[OF l nolow] m show ?thesis by simp
          qed
        next
          case low
          have cand: "is_candidate now ''low'' x t"
            using Aware False Some low by (simp add: is_candidate_def)
          have nohigh: "\<forall>t'. \<not> is_candidate now ''high'' x t'"
            using not_candidate_type[OF Some] low by simp
          show ?thesis
          proof (cases "case nl of None \<Rightarrow> True | Some l \<Rightarrow> t < nt_time l")
            case True
            with Aware False Some low Cons.prems
            have "tide_loop now xs (nh, Some \<lparr>nt_time = t, nt_height = height_of x\<rparr>) = Inr (nh', nl')"
              by simp
            from Cons.IH[OF this] have
              l: "improves now ''low'' xs (Some \<lparr>nt_time = t, nt_height = height_of x\<rparr>) nl'"
              and h: "improves now ''high'' xs nh nh'" by simp_all
            have "\<forall>m. nl = Some m \<longrightarrow> t < nt_time m" using True by (cases nl) auto
            from improves_take[OF l cand this] improves_skip[OF h nohigh] show ?thesis by simp
          next
            case F: False
            then obtain m where m: "nl = Some m" "nt_time m \<le> t"
              by (cases nl) auto
            from F Aware False Some low Cons.prems
            have "tide_loop now xs (nh, nl) = Inr (nh', nl')" by simp
            from Cons.IH[OF this] have
              l: "improves now ''low'' xs (Some m) nl'"
              and h: "improves now ''high'' xs nh nh'" using m by simp_all
            from improves_keep[OF l m(2) Aware] improves_skip[OF h nohigh] m show ?thesis by simp
          qed
        next
          case other
          have no: "\<forall>t'. \<not> is_candidate now ''high'' x t'" "\<forall>t'. \<not> is_candidate now ''low'' x t'"
            using not_candidate_type[OF Some] other by simp_all
          from other Aware False Some Cons.prems
          have "tide_loop now xs (nh, nl) = Inr (nh', nl')" by simp
          from Cons.IH[OF this] no show ?thesis by (simp add: improves_skip)
        qed
      qed
    qed
  qed
qed

lemma tide_loop_total:
  "\<forall>e \<in> set xs. tide_time e \<noteq> Unusable \<and> tide_type e \<noteq> None \<Longrightarrow> \<exists>r. tide_loop now xs st = Inr r"
proof (induction xs arbitrary: st)
  case Nil
  then show ?case by simp
next
  case (Cons x xs)
  obtain nh nl where st: "st = (nh, nl)" by (cases st)
  from Cons.prems obtain t ty where x: "tide_time x = Aware t" "tide_type x = Some ty"
    by (cases "tide_time x") auto
  have "\<forall>e \<in> set xs. tide_time e \<noteq> Unusable \<and> tide_type e \<noteq> None" using Cons.prems by simp
  from Cons.IH[OF this] show ?case unfolding st using x by simp
qed

lemma improves_None:
  "improves now ty data None r \<Longrightarrow> earliest_candidate now ty data r"
  unfolding improves_def earliest_candidate_def
  by (auto simp add: is_candidate_def split: option.splits)

text \<open>
  C5, as the code has it. The result holds at most one next high and one next low tide.
  Every entry whose time is earlier than the current time is left out; an entry at
  exactly the current time is kept. Among the entries kept, the earliest of type
  \<^verbatim>\<open>high\<close> and the earliest of type \<^verbatim>\<open>low\<close> are selected, each on its own, with
  their heights. The function returns such a result whenever the list is not empty and
  every entry has a usable time and a type.
\<close>

theorem tide_data_earliest_upcoming:
  "(data \<noteq> [] \<and> (\<forall>e \<in> set data. tide_time e \<noteq> Unusable \<and> tide_type e \<noteq> None)
      \<longrightarrow> (\<exists>r. get_tide_data now_utc data = Inr r)) \<and>
   (get_tide_data now_utc data = Inr (next_high, next_low)
      \<longrightarrow> earliest_candidate now_utc ''high'' data next_high \<and>
          earliest_candidate now_utc ''low'' data next_low)"
proof (intro conjI impI)
  assume "data \<noteq> [] \<and> (\<forall>e \<in> set data. tide_time e \<noteq> Unusable \<and> tide_type e \<noteq> None)"
  then show "\<exists>r. get_tide_data now_utc data = Inr r"
    using tide_loop_total[of data now_utc "(None, None)"] by (simp add: get_tide_data_def)
next
  assume "get_tide_data now_utc data = Inr (next_high, next_low)"
  then have "tide_loop now_utc data (None, None) = Inr (next_high, next_low)"
    by (simp add: get_tide_data_def split: if_splits)
  from tide_loop_improves[OF this]
  show "earliest_candidate now_utc ''high'' data next_high"
    and "earliest_candidate now_utc ''low'' data next_low"
    by (simp_all add: improves_None)
qed

theorem tide_data_earliest_upcoming_witness:
  "get_tide_data 100
     [\<lparr>tide_time = Aware 90, tide_type = Some ''low'', tide_height = Some (1::int)\<rparr>,
      \<lparr>tide_time = Aware 150, tide_type = Some ''high'', tide_height = Some 3\<rparr>,
      \<lparr>tide_time = Aware 120, tide_type = Some ''high'', tide_height = None\<rparr>,
      \<lparr>tide_time = Aware 130, tide_type = Some ''low'', tide_height = Some 0\<rparr>]
     = Inr (Some \<lparr>nt_time = 120, nt_height = NA\<rparr>, Some \<lparr>nt_time = 130, nt_height = Height 0\<rparr>) \<and>
   earliest_candidate 100 ''high''
     [\<lparr>tide_time = Aware 90, tide_type = Some ''low'', tide_height = Some (1::int)\<rparr>,
      \<lparr>tide_time = Aware 150, tide_type = Some ''high'', tide_height = Some 3\<rparr>,
      \<lparr>tide_time = Aware 120, tide_type = Some ''high'', tide_height = None\<rparr>,
      \<lparr>tide_time = Aware 130, tide_type = Some ''low'', tide_height = Some 0\<rparr>]
     (Some \<lparr>nt_time = 120, nt_height = NA\<rparr>) \<and>
   earliest_candidate 100 ''low''
     [\<lparr>tide_time = Aware 90, tide_type = Some ''low'', tide_height = Some (1::int)\<rparr>,
      \<lparr>tide_time = Aware 150, tide_type = Some ''high'', tide_height = Some 3\<rparr>,
      \<lparr>tide_time = Aware 120, tide_type = Some ''high'', tide_height = None\<rparr>,
      \<lparr>tide_time = Aware 130, tide_type = Some ''low'', tide_height = Some 0\<rparr>]
     (Some \<lparr>nt_time = 130, nt_height = Height 0\<rparr>)"
proof -
  let ?data =
    "[\<lparr>tide_time = Aware 90, tide_type = Some ''low'', tide_height = Some (1::int)\<rparr>,
      \<lparr>tide_time = Aware 150, tide_type = Some ''high'', tide_height = Some 3\<rparr>,
      \<lparr>tide_time = Aware 120, tide_type = Some ''high'', tide_height = None\<rparr>,
      \<lparr>tide_time = Aware 130, tide_type = Some ''low'', tide_height = Some 0\<rparr>]"
  have run: "get_tide_data 100 ?data
     = Inr (Some \<lparr>nt_time = 120, nt_height = NA\<rparr>, Some \<lparr>nt_time = 130, nt_height = Height 0\<rparr>)"
    by (simp add: get_tide_data_def height_of_def)
  from tide_data_earliest_upcoming
         [of ?data 100 "Some \<lparr>nt_time = 120, nt_height = NA\<rparr>"
             "Some \<lparr>nt_time = 130, nt_height = Height 0\<rparr>"] run
  show ?thesis by blast
qed

text \<open>
  The claim as the specification words it asks for times strictly after the query time.
  A high tide at exactly the query time is not strictly later, and it is selected.
\<close>

theorem tide_data_at_query_time_selected:
  "get_tide_data 100
     [\<lparr>tide_time = Aware 100, tide_type = Some ''high'', tide_height = Some (2::int)\<rparr>]
     = Inr (Some \<lparr>nt_time = 100, nt_height = Height 2\<rparr>, None) \<and>
   \<not> (100::int) < nt_time \<lparr>nt_time = 100, nt_height = Height (2::int)\<rparr>"
  by (simp add: get_tide_data_def height_of_def)

end
